theory Spec2Isabelle
  imports Complex_Main
begin

section \<open>JavaScript strings\<close>

text \<open>
  A JavaScript string is a sequence of UTF-16 code units. The source's patterns name two
  code units outside ASCII (the en dash U+2013 and the em dash U+2014), so a code unit is
  a natural number here and \<open>js\<close> reads an ASCII literal as such a sequence.
\<close>

type_synonym cu = nat
type_synonym jsstring = "cu list"

definition js :: "string \<Rightarrow> jsstring" where
  "js s = map of_char s"

definition is_digit :: "cu \<Rightarrow> bool" where
  "is_digit x = (48 \<le> x \<and> x \<le> 57)"

definition is_upper :: "cu \<Rightarrow> bool" where
  "is_upper x = (65 \<le> x \<and> x \<le> 90)"

definition is_lower :: "cu \<Rightarrow> bool" where
  "is_lower x = (97 \<le> x \<and> x \<le> 122)"

text \<open>\<open>\s\<close> and \<open>trim\<close>: the WhiteSpace and LineTerminator code units of ECMAScript.\<close>

definition is_space :: "cu \<Rightarrow> bool" where
  "is_space x = (x \<in> {9, 10, 11, 12, 13, 32, 160, 5760, 8232, 8233, 8239, 8287, 12288, 65279}
                 \<or> (8192 \<le> x \<and> x \<le> 8202))"

text \<open>\<open>\w\<close>, as \<open>\b\<close> uses it: \<open>[A-Za-z0-9_]\<close> (the pattern has no \<open>u\<close> flag).\<close>

definition is_word :: "cu \<Rightarrow> bool" where
  "is_word x = (is_upper x \<or> is_lower x \<or> is_digit x \<or> x = 95)"

text \<open>
  \<open>toUpperCase\<close> and \<open>toLowerCase\<close> on ASCII letters. The source applies them to the text
  captured by the day pattern only, which consists of ASCII letters (\<open>dayPattern_group\<close>
  below), so the Unicode case tables beyond ASCII are never consulted.
\<close>

definition toUpperCase :: "jsstring \<Rightarrow> jsstring" where
  "toUpperCase s = map (\<lambda>x. if is_lower x then x - 32 else x) s"

definition toLowerCase :: "jsstring \<Rightarrow> jsstring" where
  "toLowerCase s = map (\<lambda>x. if is_upper x then x + 32 else x) s"

definition trim :: "jsstring \<Rightarrow> jsstring" where
  "trim s = rev (dropWhile is_space (rev (dropWhile is_space s)))"

text \<open>\<open>s.split(d)\<close> for a one-unit separator: never empty, \<open>"".split(d)\<close> is \<open>[""]\<close>.\<close>

fun split :: "cu \<Rightarrow> jsstring \<Rightarrow> jsstring list" where
  "split d [] = [[]]"
| "split d (x # xs) =
     (if x = d then [] # split d xs
      else (case split d xs of [] \<Rightarrow> [[x]] | l # ls \<Rightarrow> (x # l) # ls))"

text \<open>Number to string, for a non-negative integer: its decimal digits.\<close>

fun number_toString :: "nat \<Rightarrow> jsstring" where
  "number_toString n =
     (if n < 10 then [48 + n] else number_toString (n div 10) @ [48 + n mod 10])"

declare number_toString.simps [simp del]

section \<open>Regular expressions\<close>

text \<open>
  The four patterns of \<open>parseOCRToTimetable\<close> all carry the \<open>i\<close> flag and no other. They
  are kept as syntax trees and run by one backtracking matcher, which returns every way
  to match in the order in which a backtracking engine tries them: the head of the list
  is the match the engine reports.

  With the \<open>i\<close> flag (and no \<open>u\<close> flag) two code units match when their canonical forms
  agree, the canonical form being the upper case of a single unit, except that a unit of
  128 or more is never mapped below 128. The patterns' own letters are ASCII and their
  other units (\<open>-\<close>, \<open>:\<close>, U+2013, U+2014) are the upper case of nothing else, so ASCII
  upper-casing decides every comparison the patterns make.
\<close>

definition canonicalize :: "cu \<Rightarrow> cu" where
  "canonicalize x = (if is_lower x then x - 32 else x)"

datatype item = Lit cu | Range cu cu | Digit | Space

fun in_item :: "item \<Rightarrow> cu \<Rightarrow> bool" where
  "in_item (Lit c) x = (canonicalize c = canonicalize x)"
| "in_item (Range lo hi) x = list_ex (\<lambda>a. canonicalize a = canonicalize x) [lo ..< Suc hi]"
| "in_item Digit x = is_digit x"
| "in_item Space x = is_space x"

definition in_class :: "item list \<Rightarrow> cu \<Rightarrow> bool" where
  "in_class its x = list_ex (\<lambda>i. in_item i x) its"

datatype regex =
    Eps
  | Cls "item list"
  | Cat regex regex
  | Alt regex regex
  | Opt regex
  | Rep nat "nat option" "item list"
  | Group nat regex
  | WordB

text \<open>
  A matcher state: the captures so far (latest first), the code unit before the current
  position (for \<open>\b\<close>) and the text still to read.
\<close>

type_synonym mstate = "(nat \<times> jsstring) list \<times> cu option \<times> jsstring"

text \<open>
  Greedy repetition \<open>{lo,hi}\<close> (\<open>*\<close> is \<open>{0,}\<close>, \<open>+\<close> is \<open>{1,}\<close>) of a one-unit atom, the
  only thing the source's patterns repeat: one more unit is tried before stopping.
\<close>

fun rep :: "item list \<Rightarrow> nat \<Rightarrow> nat option \<Rightarrow> cu option \<Rightarrow> jsstring \<Rightarrow> (cu option \<times> jsstring) list" where
  "rep its lo hi p [] = (if lo = 0 then [(p, [])] else [])"
| "rep its lo hi p (x # xs) =
     (if hi \<noteq> Some 0 \<and> in_class its x
      then rep its (lo - 1) (map_option (\<lambda>h. h - 1) hi) (Some x) xs else [])
     @ (if lo = 0 then [(p, x # xs)] else [])"

definition word_before :: "cu option \<Rightarrow> bool" where
  "word_before p = (case p of None \<Rightarrow> False | Some x \<Rightarrow> is_word x)"

definition word_after :: "jsstring \<Rightarrow> bool" where
  "word_after xs = (case xs of [] \<Rightarrow> False | x # _ \<Rightarrow> is_word x)"

fun matches :: "regex \<Rightarrow> mstate \<Rightarrow> mstate list" where
  "matches Eps st = [st]"
| "matches (Cls its) (cs, p, xs) =
     (case xs of [] \<Rightarrow> [] | x # xs' \<Rightarrow> if in_class its x then [(cs, Some x, xs')] else [])"
| "matches (Cat a b) st = concat (map (matches b) (matches a st))"
| "matches (Alt a b) st = matches a st @ matches b st"
| "matches (Opt a) st = matches a st @ [st]"
| "matches (Rep lo hi its) (cs, p, xs) = map (\<lambda>(p', xs'). (cs, p', xs')) (rep its lo hi p xs)"
| "matches (Group n a) (cs, p, xs) =
     map (\<lambda>(cs', p', xs'). ((n, take (length xs - length xs') xs) # cs', p', xs'))
       (matches a (cs, p, xs))"
| "matches WordB (cs, p, xs) = (if word_before p \<noteq> word_after xs then [(cs, p, xs)] else [])"

text \<open>
  The result of a successful \<open>exec\<close>: the text before the match, the matched text
  (\<open>m[0]\<close>), the text after it, and the captures.
\<close>

record rmatch =
  before :: jsstring
  matched :: jsstring
  after :: jsstring
  groups :: "(nat \<times> jsstring) list"

text \<open>The engine tries every start position from the left.\<close>

fun search :: "regex \<Rightarrow> jsstring \<Rightarrow> cu option \<Rightarrow> jsstring \<Rightarrow> rmatch option" where
  "search r bef p [] =
     (case matches r ([], p, []) of
        [] \<Rightarrow> None
      | (cs, _, xs') # _ \<Rightarrow> Some \<lparr>before = bef, matched = [], after = xs', groups = cs\<rparr>)"
| "search r bef p (x # xs) =
     (case matches r ([], p, x # xs) of
        [] \<Rightarrow> search r (bef @ [x]) (Some x) xs
      | (cs, _, xs') # _ \<Rightarrow>
          Some \<lparr>before = bef, matched = take (length (x # xs) - length xs') (x # xs),
                after = xs', groups = cs\<rparr>)"

text \<open>\<open>s.match(r)\<close>, \<open>r.test(s)\<close> and \<open>s.replace(r, '')\<close> for a pattern without the \<open>g\<close> flag.\<close>

definition js_match :: "regex \<Rightarrow> jsstring \<Rightarrow> rmatch option" where
  "js_match r s = search r [] None s"

definition js_test :: "regex \<Rightarrow> jsstring \<Rightarrow> bool" where
  "js_test r s = (js_match r s \<noteq> None)"

definition replace_empty :: "regex \<Rightarrow> jsstring \<Rightarrow> jsstring" where
  "replace_empty r s = (case js_match r s of None \<Rightarrow> s | Some m \<Rightarrow> before m @ after m)"

text \<open>\<open>m[n]\<close> for a capture: the source reads only groups that every match sets.\<close>

definition capture :: "rmatch \<Rightarrow> nat \<Rightarrow> jsstring" where
  "capture m n = (case map_of (groups m) n of None \<Rightarrow> [] | Some s \<Rightarrow> s)"

subsection \<open>The patterns of the source\<close>

definition cat :: "regex list \<Rightarrow> regex" where
  "cat rs = foldr Cat rs Eps"

definition alts :: "regex \<Rightarrow> regex list \<Rightarrow> regex" where
  "alts r rs = foldr (\<lambda>a b. Alt a b) (butlast (r # rs)) (last (r # rs))"

definition str :: "string \<Rightarrow> regex" where
  "str s = cat (map (\<lambda>c. Cls [Lit (of_char c)]) s)"

text \<open>
  \<^verbatim>\<open>timePattern = /(\d{1,2}:\d{2})\s*(?:AM|PM)?\s*[-\u2013\u2014to]+\s*(\d{1,2}:\d{2})\s*(?:AM|PM)?/i\<close>
  (the source writes the two dashes as characters), with \<open>hhmm\<close> for \<^verbatim>\<open>\d{1,2}:\d{2}\<close>
  and \<open>ampm\<close> for \<^verbatim>\<open>(?:AM|PM)?\<close>. The bracket holds five characters, so a connector is
  any run of dashes and of the letters \<open>t\<close> and \<open>o\<close>.
\<close>

definition hhmm :: regex where
  "hhmm = cat [Rep 1 (Some 2) [Digit], Cls [Lit 58], Rep 2 (Some 2) [Digit]]"

definition ampm :: regex where
  "ampm = Opt (Alt (str ''AM'') (str ''PM''))"

definition timePattern :: regex where
  "timePattern =
     cat [Group 1 hhmm, Rep 0 None [Space], ampm, Rep 0 None [Space],
          Rep 1 None [Lit 45, Lit 8211, Lit 8212, Lit 116, Lit 111],
          Rep 0 None [Space], Group 2 hhmm, Rep 0 None [Space], ampm]"

text \<open>
  \<^verbatim>\<open>dayPattern = /\b(monday|tuesday|wednesday|thursday|friday|saturday|sunday)\b/i\<close>
\<close>

definition dayPattern :: regex where
  "dayPattern =
     cat [WordB,
          Group 1 (alts (str ''monday'') [str ''tuesday'', str ''wednesday'', str ''thursday'',
                                          str ''friday'', str ''saturday'', str ''sunday'']),
          WordB]"

text \<open>
  \<^verbatim>\<open>roomPattern = /\b(?:room|lab|hall|lecture)\s*[a-z]?[-\s]?(\d+[a-z]?)\b/i\<close>
\<close>

definition roomPattern :: regex where
  "roomPattern =
     cat [WordB, alts (str ''room'') [str ''lab'', str ''hall'', str ''lecture''],
          Rep 0 None [Space], Opt (Cls [Range 97 122]), Opt (Cls [Lit 45, Space]),
          Group 1 (cat [Rep 1 None [Digit], Opt (Cls [Range 97 122])]), WordB]"

text \<open>\<^verbatim>\<open>/header|table|schedule/i\<close>, the pattern of the header check.\<close>

definition headerPattern :: regex where
  "headerPattern = alts (str ''header'') [str ''table'', str ''schedule'']"

section \<open>The heuristic line parser\<close>

record entry =
  title :: jsstring
  day :: jsstring
  startTime :: jsstring
  endTime :: jsstring
  location :: jsstring

text \<open>The body of the \<open>forEach\<close> callback, with the \<open>entries\<close> array passed through.\<close>

definition process_line :: "entry list \<Rightarrow> jsstring \<Rightarrow> entry list" where
  "process_line entries line =
     (if length line < 5 \<or> js_test headerPattern line then entries
      else case js_match timePattern line of
        None \<Rightarrow> entries
      | Some timeMatch \<Rightarrow>
          let start_time = capture timeMatch 1;
              end_time = capture timeMatch 2;
              d = (case js_match dayPattern line of
                     Some dayMatch \<Rightarrow>
                       toUpperCase (take 1 (capture dayMatch 1)) @ toLowerCase (drop 1 (capture dayMatch 1))
                   | None \<Rightarrow> js ''Monday'');
              loc = (case js_match roomPattern line of
                       Some roomMatch \<Rightarrow> matched roomMatch
                     | None \<Rightarrow> []);
              t = trim (replace_empty roomPattern (replace_empty dayPattern
                         (replace_empty timePattern line)));
              t' = (if t = [] then js ''Class '' @ number_toString (length entries + 1) else t)
          in entries @ [\<lparr>title = t', day = d, startTime = start_time, endTime = end_time,
                           location = loc\<rparr>])"

definition parseOCRToTimetable :: "jsstring \<Rightarrow> entry list" where
  "parseOCRToTimetable ocrText =
     foldl process_line [] (filter (\<lambda>l. l \<noteq> []) (map trim (split 10 ocrText)))"

section \<open>The \<open>/api/ocr\<close> route\<close>

text \<open>
  A JavaScript value as the route meets it: what \<open>JSON.parse\<close> can return, \<open>undefined\<close>
  (a missing property) and a built-in method (\<open>Array.prototype.entries\<close>, which a
  top-level array answers for the key \<open>entries\<close>). A number is kept by its value; \<open>-0\<close>
  is \<open>0\<close> here, both being falsy.
\<close>

datatype jsnumber = Finite rat | PlusInfinity | MinusInfinity

datatype jsvalue =
    JUndefined
  | JNull
  | JBool bool
  | JNum jsnumber
  | JStr jsstring
  | JArr "jsvalue list"
  | JObj "(jsstring \<times> jsvalue) list"
  | JFunction

datatype error = TypeError | SyntaxError | ZodError | ServiceError | NoContentError

fun truthy :: "jsvalue \<Rightarrow> bool" where
  "truthy JUndefined = False"
| "truthy JNull = False"
| "truthy (JBool b) = b"
| "truthy (JNum n) = (n \<noteq> Finite 0)"
| "truthy (JStr s) = (s \<noteq> [])"
| "truthy (JArr xs) = True"
| "truthy (JObj kvs) = True"
| "truthy JFunction = True"

text \<open>An own property of a parsed object: of two members with one name the later wins.\<close>

definition own_property :: "(jsstring \<times> jsvalue) list \<Rightarrow> jsstring \<Rightarrow> jsvalue" where
  "own_property kvs k = (case map_of (rev kvs) k of None \<Rightarrow> JUndefined | Some v \<Rightarrow> v)"

text \<open>
  \<open>v.k\<close> for the property names the route reads of the parsed reply (\<open>entries\<close>,
  \<open>timetable\<close>, \<open>schedule\<close>, \<open>classes\<close>): reading a property of \<open>null\<close> or \<open>undefined\<close>
  throws, an object answers with its own property (\<open>Object.prototype\<close> has none of these
  names), an array has the method \<open>entries\<close>, and strings, numbers and booleans have none
  of them.
\<close>

fun get_property :: "jsvalue \<Rightarrow> jsstring \<Rightarrow> error + jsvalue" where
  "get_property JUndefined k = Inl TypeError"
| "get_property JNull k = Inl TypeError"
| "get_property (JObj kvs) k = Inr (own_property kvs k)"
| "get_property (JArr xs) k = Inr (if k = js ''entries'' then JFunction else JUndefined)"
| "get_property v k = Inr JUndefined"

text \<open>\<open>a || b\<close>, where evaluating \<open>a\<close> may throw.\<close>

definition js_or :: "error + jsvalue \<Rightarrow> error + jsvalue \<Rightarrow> error + jsvalue" where
  "js_or a b = (case a of Inl e \<Rightarrow> Inl e | Inr x \<Rightarrow> if truthy x then Inr x else b)"

text \<open>
  \<open>parsedResponse.entries || parsedResponse.timetable || parsedResponse.schedule ||
  parsedResponse.classes || []\<close>
\<close>

definition select_entries :: "jsvalue \<Rightarrow> error + jsvalue" where
  "select_entries parsedResponse =
     js_or (get_property parsedResponse (js ''entries''))
       (js_or (get_property parsedResponse (js ''timetable''))
         (js_or (get_property parsedResponse (js ''schedule''))
           (js_or (get_property parsedResponse (js ''classes''))
             (Inr (JArr [])))))"

text \<open>
  What the external vision service does for one request is not decided by the code:
  the call is rejected (or the reply has no \<open>choices[0].message\<close>), the reply's content is
  \<open>null\<close> or empty, \<open>JSON.parse\<close> throws on it, or \<open>JSON.parse\<close> returns a value.
\<close>

datatype vision_outcome = CallFails | NoContent | Unparseable | Parsed jsvalue

text \<open>The inner \<open>try\<close> block.\<close>

fun vision_stage :: "vision_outcome \<Rightarrow> error + jsvalue" where
  "vision_stage CallFails = Inl ServiceError"
| "vision_stage NoContent = Inl NoContentError"
| "vision_stage Unparseable = Inl SyntaxError"
| "vision_stage (Parsed parsedResponse) = select_entries parsedResponse"

text \<open>The entries of the inner \<open>catch\<close> block, and an entry as the object literal writes it.\<close>

definition mk_entry :: "string \<Rightarrow> string \<Rightarrow> string \<Rightarrow> string \<Rightarrow> string \<Rightarrow> entry" where
  "mk_entry d s e t l =
     \<lparr>title = js t, day = js d, startTime = js s, endTime = js e, location = js l\<rparr>"

definition fallbackEntries :: "entry list" where
  "fallbackEntries =
     [mk_entry ''Monday'' ''09:00'' ''10:30'' ''Mathematics'' ''Room 101'',
      mk_entry ''Monday'' ''11:00'' ''12:30'' ''Physics'' ''Lab 3'',
      mk_entry ''Tuesday'' ''09:00'' ''10:30'' ''Computer Science'' ''Room 205'',
      mk_entry ''Wednesday'' ''13:00'' ''14:30'' ''Economics'' ''Hall B'',
      mk_entry ''Thursday'' ''15:00'' ''16:30'' ''History'' ''Room 110'',
      mk_entry ''Friday'' ''10:00'' ''11:30'' ''English Literature'' ''Room 302'']"

definition entry_json :: "entry \<Rightarrow> jsvalue" where
  "entry_json e =
     JObj [(js ''day'', JStr (day e)), (js ''startTime'', JStr (startTime e)),
           (js ''endTime'', JStr (endTime e)), (js ''title'', JStr (title e)),
           (js ''location'', JStr (location e))]"

text \<open>
  \<open>schema.parse(req.body)\<close>: the body is an object whose \<open>imageData\<close> is a string of at
  least one code unit and whose \<open>enhanceResults\<close>, when present, is a boolean (\<open>true\<close> when
  absent). Other members are dropped.
\<close>

definition schema_parse :: "jsvalue \<Rightarrow> error + (jsstring \<times> bool)" where
  "schema_parse body =
     (case body of
        JObj kvs \<Rightarrow>
          (case own_property kvs (js ''imageData'') of
             JStr imageData \<Rightarrow>
               if length imageData < 1 then Inl ZodError
               else (case own_property kvs (js ''enhanceResults'') of
                       JUndefined \<Rightarrow> Inr (imageData, True)
                     | JBool b \<Rightarrow> Inr (imageData, b)
                     | _ \<Rightarrow> Inl ZodError)
           | _ \<Rightarrow> Inl ZodError)
      | _ \<Rightarrow> Inl ZodError)"

text \<open>
  \<open>res.json(...)\<close> sends the body as \<open>JSON.stringify\<close> writes it, and the caller reads the
  parsed body. \<open>JSON.stringify\<close> goes through an object's own properties in property
  order: the keys that are array indices (canonical decimal numerals below \<open>2^32 - 1\<close>) in
  ascending order, then the other keys in the order of their creation. A member whose
  value is \<open>undefined\<close> or a function is left out, such an element of an array is written
  \<open>null\<close>, and so is a number that is not finite.
\<close>

definition decimal :: "jsstring \<Rightarrow> nat" where
  "decimal k = foldl (\<lambda>a d. 10 * a + (d - 48)) 0 k"

definition is_array_index :: "jsstring \<Rightarrow> bool" where
  "is_array_index k =
     (k \<noteq> [] \<and> list_all is_digit k \<and> (k = [48] \<or> take 1 k \<noteq> [48]) \<and> decimal k < 4294967295)"

definition own_keys :: "(jsstring \<times> jsvalue) list \<Rightarrow> jsstring list" where
  "own_keys kvs =
     (let ks = rev (remdups (rev (map fst kvs)))
      in sort_key decimal (filter is_array_index ks) @ filter (\<lambda>k. \<not> is_array_index k) ks)"

definition own_properties :: "(jsstring \<times> jsvalue) list \<Rightarrow> (jsstring \<times> jsvalue) list" where
  "own_properties kvs = map (\<lambda>k. (k, own_property kvs k)) (own_keys kvs)"

definition serializable :: "jsvalue \<Rightarrow> bool" where
  "serializable v = (v \<noteq> JUndefined \<and> v \<noteq> JFunction)"

fun to_json :: "jsvalue \<Rightarrow> jsvalue" where
  "to_json (JNum n) = (case n of Finite q \<Rightarrow> JNum n | _ \<Rightarrow> JNull)"
| "to_json (JArr xs) = JArr (map (\<lambda>v. if serializable v then to_json v else JNull) xs)"
| "to_json (JObj kvs) =
     JObj (filter (\<lambda>(k, v). serializable v) (own_properties (map (\<lambda>(k, v). (k, to_json v)) kvs)))"
| "to_json v = v"

text \<open>
  The \<open>result\<close> member that the caller reads from the body \<open>{result: v}\<close>: \<open>undefined\<close>
  when the body has no such member.
\<close>

definition res_json :: "jsvalue \<Rightarrow> jsvalue" where
  "res_json v = (if serializable v then to_json v else JUndefined)"

text \<open>
  A response: status 200 with the \<open>result\<close> member of its body as the caller reads it,
  or an error status.
\<close>

datatype response = Ok200 jsvalue | BadRequest400 | ServerError500

text \<open>
  The handler: the outer \<open>try\<close> answers a validation error with 400; the inner one sends
  \<open>{result: ...}\<close> with status 200, from the vision stage or, when that throws, the fixed
  entries.
\<close>

definition ocr_route :: "jsvalue \<Rightarrow> vision_outcome \<Rightarrow> response" where
  "ocr_route body outcome =
     (case schema_parse body of
        Inl err \<Rightarrow> if err = ZodError then BadRequest400 else ServerError500
      | Inr (imageData, enhanceResults) \<Rightarrow>
          (case vision_stage outcome of
             Inr result \<Rightarrow> Ok200 (res_json result)
           | Inl ocrError \<Rightarrow> Ok200 (res_json (JArr (map entry_json fallbackEntries)))))"

section \<open>The properties, as the specification words them\<close>






text \<open>A non-empty sequence of entries, as a result value.\<close>

definition nonempty_array :: "jsvalue \<Rightarrow> bool" where
  "nonempty_array v = (case v of JArr (x # xs) \<Rightarrow> True | _ \<Rightarrow> False)"

text \<open>The keys the adapter recognises, in priority order.\<close>

definition recognized_keys :: "jsstring list" where
  "recognized_keys = map js [''entries'', ''timetable'', ''schedule'', ''classes'']"

definition is_array :: "jsvalue \<Rightarrow> bool" where
  "is_array v = (case v of JArr xs \<Rightarrow> True | _ \<Rightarrow> False)"

text \<open>A line contains a word as a substring, letters compared without regard to case.\<close>

definition ascii_lower :: "cu \<Rightarrow> cu" where
  "ascii_lower x = (if is_upper x then x + 32 else x)"

definition ci_equal :: "jsstring \<Rightarrow> jsstring \<Rightarrow> bool" where
  "ci_equal a b = (map ascii_lower a = map ascii_lower b)"

fun contains_ci :: "jsstring \<Rightarrow> jsstring \<Rightarrow> bool" where
  "contains_ci w [] = (w = [])"
| "contains_ci w (x # xs) = (ci_equal (take (length w) (x # xs)) w \<or> contains_ci w xs)"

text \<open>
  A line that the parser reads and that the three patterns consume whole: it passes the
  length and header checks, has a time range, and nothing but white space is left once
  the three matches are removed.
\<close>

definition fully_consumed :: "jsstring \<Rightarrow> bool" where
  "fully_consumed line =
     (\<not> (length line < 5 \<or> js_test headerPattern line)
      \<and> js_match timePattern line \<noteq> None
      \<and> trim (replace_empty roomPattern (replace_empty dayPattern
                (replace_empty timePattern line))) = [])"

text \<open>A pattern without capturing groups.\<close>

fun nocap :: "regex \<Rightarrow> bool" where
  "nocap (Group n a) = False"
| "nocap (Cat a b) = (nocap a \<and> nocap b)"
| "nocap (Alt a b) = (nocap a \<and> nocap b)"
| "nocap (Opt a) = nocap a"
| "nocap r = True"


text \<open>A text matches a pattern word letter by letter, as the \<open>i\<close> flag compares them.\<close>

definition ci_match :: "jsstring \<Rightarrow> string \<Rightarrow> bool" where
  "ci_match s w = list_all2 (\<lambda>x c. canonicalize (of_char c) = canonicalize x) s w"


text \<open>
  Two request bodies: the one the timetable view sends, and one that also carries
  recognised text in a member \<open>ocrText\<close>.
\<close>

definition sample_body :: jsvalue where
  "sample_body = JObj [(js ''imageData'', JStr (js ''data:image/png;base64,iVBORw0KGgo='')),
                       (js ''enhanceResults'', JBool True)]"

definition ocrText_body :: jsvalue where
  "ocrText_body = JObj [(js ''imageData'', JStr (js ''data:image/png;base64,iVBORw0KGgo='')),
                        (js ''ocrText'', JStr (js ''Monday 09:00-10:30 Room 101 Calculus''))]"

section \<open>Evaluation\<close>

lemmas ev = js_def is_digit_def is_upper_def is_lower_def is_space_def is_word_def canonicalize_def
  in_class_def word_before_def word_after_def js_match_def js_test_def replace_empty_def capture_def
  cat_def alts_def str_def hhmm_def ampm_def timePattern_def dayPattern_def roomPattern_def
  headerPattern_def trim_def toUpperCase_def toLowerCase_def process_line_def
  parseOCRToTimetable_def Let_def number_toString.simps

lemmas sv = res_json_def serializable_def own_properties_def own_keys_def is_array_index_def
  decimal_def is_digit_def Let_def

lemmas rv = select_entries_def js_or_def own_property_def schema_parse_def ocr_route_def js_def
  mk_entry_def entry_json_def fallbackEntries_def sample_body_def ocrText_body_def sv

section \<open>The matcher\<close>





section \<open>What the time pattern captures\<close>

lemma digit_class [simp]: "in_class [Digit] x = is_digit x"
  by (simp add: in_class_def)

lemma colon_class [simp]: "in_class [Lit 58] x = (x = 58)"
  by (auto simp: in_class_def canonicalize_def is_lower_def)




lemma nocap_str [simp]: "nocap (str w)"
  by (induction w) (simp_all add: str_def cat_def)



section \<open>What the day pattern captures\<close>

lemma str_Nil: "str [] = Eps"
  by (simp add: str_def cat_def)

lemma str_Cons: "str (c # w) = Cat (Cls [Lit (of_char c)]) (str w)"
  by (simp add: str_def cat_def)

lemma lit_class: "in_class [Lit c] x = (canonicalize c = canonicalize x)"
  by (simp add: in_class_def)


lemma alts_Nil: "alts r [] = r"
  by (simp add: alts_def)

lemma alts_Cons: "alts r (a # rs) = Alt r (alts a rs)"
  by (simp add: alts_def)

lemma alts_matches:
  "set (matches (alts r rs) st) = (\<Union>a \<in> set (r # rs). set (matches a st))"
  by (induction rs arbitrary: r) (simp_all add: alts_Nil alts_Cons)








section \<open>The header check\<close>

lemma search_finds:
  "matches r ([], (if ys = [] then p else Some (last ys)), zs) \<noteq> [] \<Longrightarrow>
     search r bef p (ys @ zs) \<noteq> None"
proof (induction ys arbitrary: bef p)
  case Nil
  then show ?case by (cases zs) (auto split: list.splits)
next
  case (Cons y ys)
  show ?case
  proof (cases "matches r ([], p, y # ys @ zs)")
    case Nil
    have "search r (bef @ [y]) (Some y) (ys @ zs) \<noteq> None"
      using Cons.prems by (intro Cons.IH) (simp split: if_splits)
    with Nil show ?thesis by simp
  next
    case (Cons st sts)
    then show ?thesis by (cases st) simp
  qed
qed

lemma str_matches_conv:
  "ci_match s w \<Longrightarrow> matches (str w) (cs, p, s @ rest) \<noteq> []"
proof (induction w arbitrary: s p)
  case Nil
  then show ?case by (simp add: str_Nil ci_match_def)
next
  case (Cons c w)
  from Cons.prems obtain x s' where s: "s = x # s'" "canonicalize (of_char c) = canonicalize x"
    "ci_match s' w" by (auto simp: ci_match_def list_all2_Cons2)
  from Cons.IH[OF s(3)] s(1,2) show ?case by (simp add: str_Cons lit_class)
qed

lemma lower_canon: "(ascii_lower x = ascii_lower c) = (canonicalize c = canonicalize x)"
  by (auto simp: ascii_lower_def canonicalize_def is_upper_def is_lower_def)

lemma ci_equal_match: "ci_equal s (js w) \<Longrightarrow> ci_match s w"
proof (induction w arbitrary: s)
  case Nil
  then show ?case by (simp add: ci_equal_def ci_match_def js_def)
next
  case (Cons c w)
  then show ?case
    by (cases s) (auto simp: ci_equal_def ci_match_def js_def lower_canon)
qed

lemma contains_ci_split:
  "contains_ci w line \<Longrightarrow> \<exists>ys s rest. line = ys @ s @ rest \<and> ci_equal s w"
proof (induction line)
  case Nil
  then show ?case by (simp add: ci_equal_def)
next
  case (Cons x xs)
  from Cons.prems consider (here) "ci_equal (take (length w) (x # xs)) w" | (later) "contains_ci w xs"
    by auto
  then show ?case
  proof cases
    case here
    have "x # xs = [] @ take (length w) (x # xs) @ drop (length w) (x # xs)" by simp
    with here show ?thesis by blast
  next
    case later
    from Cons.IH[OF this] obtain ys s rest where "xs = ys @ s @ rest" "ci_equal s w" by blast
    then have "x # xs = (x # ys) @ s @ rest \<and> ci_equal s w" by simp
    then show ?thesis by blast
  qed
qed

lemma contains_ci_test:
  assumes "contains_ci (js w) line" and sub: "\<And>st. set (matches (str w) st) \<subseteq> set (matches r st)"
  shows "js_test r line"
proof -
  from contains_ci_split[OF assms(1)] obtain ys s rest where
    l: "line = ys @ s @ rest" and ci: "ci_equal s (js w)" by blast
  let ?p = "if ys = [] then None else Some (last ys)"
  from str_matches_conv[OF ci_equal_match[OF ci]] have "matches (str w) ([], ?p, s @ rest) \<noteq> []" .
  with sub[of "([], ?p, s @ rest)"] have "matches r ([], ?p, s @ rest) \<noteq> []" by auto
  from search_finds[OF this] show ?thesis by (simp add: js_test_def js_match_def l)
qed

lemma header_test:
  assumes "contains_ci (js ''header'') line \<or> contains_ci (js ''table'') line
           \<or> contains_ci (js ''schedule'') line"
  shows "js_test headerPattern line"
proof -
  have "set (matches (str w) st) \<subseteq> set (matches headerPattern st)"
    if "w \<in> {''header'', ''table'', ''schedule''}" for w st
    using that unfolding headerPattern_def alts_matches by auto
  then have "contains_ci (js w) line \<Longrightarrow> js_test headerPattern line"
    if "w \<in> {''header'', ''table'', ''schedule''}" for w
    using that contains_ci_test[of w line headerPattern] by blast
  from this[of "''header''"] this[of "''table''"] this[of "''schedule''"] assms
  show ?thesis by blast
qed

section \<open>Entries built by the parser\<close>






section \<open>The route and the adapter\<close>

lemma fallback_json:
  "res_json (JArr (map entry_json fallbackEntries)) = JArr (map entry_json fallbackEntries)"
  by (simp add: sv own_property_def fallbackEntries_def entry_json_def mk_entry_def js_def)

lemma res_json_empty: "res_json (JArr []) = JArr []"
  by (simp add: res_json_def serializable_def)

lemma res_json_nonempty: "nonempty_array (res_json sel) = nonempty_array sel"
  by (cases sel)
    (auto simp: res_json_def serializable_def nonempty_array_def split: jsnumber.splits list.splits)

lemma route_valid:
  "schema_parse body = Inr v \<Longrightarrow>
     ocr_route body outcome =
       (case vision_stage outcome of
          Inr result \<Rightarrow> Ok200 (res_json result)
        | Inl ocrError \<Rightarrow> Ok200 (JArr (map entry_json fallbackEntries)))"
  by (cases v) (simp add: ocr_route_def fallback_json split: sum.splits)

lemma sample_body_valid:
  "schema_parse sample_body = Inr (js ''data:image/png;base64,iVBORw0KGgo='', True)"
  by (simp add: rv)

lemma ocrText_body_valid:
  "schema_parse ocrText_body = Inr (js ''data:image/png;base64,iVBORw0KGgo='', True)"
  by (simp add: rv)

lemma fallback_nonempty: "nonempty_array (JArr (map entry_json fallbackEntries))"
  by (simp add: nonempty_array_def fallbackEntries_def)

lemma keys_nth:
  "recognized_keys ! 0 = js ''entries''" "recognized_keys ! 1 = js ''timetable''"
  "recognized_keys ! 2 = js ''schedule''" "recognized_keys ! 3 = js ''classes''"
  "recognized_keys ! Suc 0 = js ''timetable''"
  by (simp_all add: recognized_keys_def)

lemma lt4: "i < 4 \<Longrightarrow> i = 0 \<or> i = 1 \<or> i = 2 \<or> i = (3::nat)"
  by arith

lemma select_first_truthy:
  assumes "i < length recognized_keys"
    and "\<forall>j<i. \<not> truthy (own_property kvs (recognized_keys ! j))"
    and "truthy (own_property kvs (recognized_keys ! i))"
  shows "select_entries (JObj kvs) = Inr (own_property kvs (recognized_keys ! i))"
proof -
  from assms(1) have "i = 0 \<or> i = 1 \<or> i = 2 \<or> i = 3"
    by (auto simp: recognized_keys_def dest: lt4)
  then show ?thesis
  proof (elim disjE)
    assume "i = 0"
    with assms(3) show ?thesis by (simp add: select_entries_def js_or_def keys_nth)
  next
    assume i: "i = 1"
    with assms(2) have "\<not> truthy (own_property kvs (recognized_keys ! 0))" by simp
    with assms(3) i show ?thesis by (simp add: select_entries_def js_or_def keys_nth)
  next
    assume i: "i = 2"
    with assms(2) have "\<not> truthy (own_property kvs (recognized_keys ! 0))"
      "\<not> truthy (own_property kvs (recognized_keys ! 1))" by simp_all
    with assms(3) i show ?thesis by (simp add: select_entries_def js_or_def keys_nth)
  next
    assume i: "i = 3"
    with assms(2) have "\<not> truthy (own_property kvs (recognized_keys ! 0))"
      "\<not> truthy (own_property kvs (recognized_keys ! 1))"
      "\<not> truthy (own_property kvs (recognized_keys ! 2))" by simp_all
    with assms(3) i show ?thesis by (simp add: select_entries_def js_or_def keys_nth)
  qed
qed

lemma select_none_truthy:
  assumes "\<forall>k \<in> set recognized_keys. \<not> truthy (own_property kvs k)"
  shows "select_entries (JObj kvs) = Inr (JArr [])"
  using assms by (simp add: select_entries_def js_or_def recognized_keys_def)

section \<open>Lines the parser skips, and title synthesis\<close>

lemma process_line_no_time:
  "js_match timePattern line = None \<Longrightarrow> process_line entries line = entries"
  by (simp add: process_line_def)


lemma fully_consumed_step:
  assumes "fully_consumed line"
  shows "\<exists>e. process_line entries line = entries @ [e]
            \<and> title e = js ''Class '' @ number_toString (length entries + 1)"
  using assms by (auto simp: fully_consumed_def process_line_def Let_def)

section \<open>The claims\<close>

text \<open>
  Claim C1, as amended. For every request whose payload passes input validation the
  route answers with status 200. The result the caller reads is the fixed fallback set,
  which is not empty, whenever the vision stage throws. Otherwise it is the JSON
  serialisation of the value selected from the vision reply (no result at all when that
  value is not serialisable), and it is a non-empty sequence exactly when the selected
  value is a non-empty array. For an object reply it is the empty array when no
  recognised key holds a truthy value, and when the first recognised key with a truthy
  value holds an empty array.
\<close>

theorem ocr_route_result:
  assumes "schema_parse body = Inr v"
  shows "\<exists>r. ocr_route body outcome = Ok200 r
           \<and> (\<forall>err. vision_stage outcome = Inl err \<longrightarrow>
                  r = JArr (map entry_json fallbackEntries) \<and> nonempty_array r)
           \<and> (\<forall>sel. vision_stage outcome = Inr sel \<longrightarrow>
                  r = res_json sel \<and> (nonempty_array r \<longleftrightarrow> nonempty_array sel))
           \<and> (\<forall>kvs. outcome = Parsed (JObj kvs) \<longrightarrow>
                  (\<forall>k \<in> set recognized_keys. \<not> truthy (own_property kvs k)) \<longrightarrow> r = JArr [])
           \<and> (\<forall>kvs i. outcome = Parsed (JObj kvs) \<longrightarrow> i < length recognized_keys \<longrightarrow>
                  (\<forall>j<i. \<not> truthy (own_property kvs (recognized_keys ! j))) \<longrightarrow>
                  own_property kvs (recognized_keys ! i) = JArr [] \<longrightarrow> r = JArr [])"
proof (cases "vision_stage outcome")
  case (Inl err)
  with route_valid[OF assms, of outcome]
  have r: "ocr_route body outcome = Ok200 (JArr (map entry_json fallbackEntries))" by simp
  have "outcome \<noteq> Parsed (JObj kvs)" for kvs
    using Inl by (auto simp: select_entries_def js_or_def split: if_splits)
  with r Inl fallback_nonempty show ?thesis by simp
next
  case (Inr sel)
  with route_valid[OF assms, of outcome]
  have r: "ocr_route body outcome = Ok200 (res_json sel)" by simp
  have none: "res_json sel = JArr []"
    if "outcome = Parsed (JObj kvs)" "\<forall>k \<in> set recognized_keys. \<not> truthy (own_property kvs k)"
    for kvs
  proof -
    from that Inr select_none_truthy[of kvs] have "sel = JArr []" by simp
    then show ?thesis by (simp add: res_json_empty)
  qed
  have first: "res_json sel = JArr []"
    if "outcome = Parsed (JObj kvs)" "i < length recognized_keys"
      "\<forall>j<i. \<not> truthy (own_property kvs (recognized_keys ! j))"
      "own_property kvs (recognized_keys ! i) = JArr []"
    for kvs i
  proof -
    from that(4) have "truthy (own_property kvs (recognized_keys ! i))" by simp
    from select_first_truthy[OF that(2,3) this] that(1,4) Inr have "sel = JArr []" by simp
    then show ?thesis by (simp add: res_json_empty)
  qed
  from r Inr none first res_json_nonempty[of sel] show ?thesis by auto
qed

text \<open>
  The amended C1 at the body the timetable view sends: a rejected call, a reply whose
  \<open>timetable\<close> key holds one entry, a top-level array reply (the selected method is not
  serialisable, so the body has no result), the reply \<open>{}\<close> and the reply
  \<open>{"entries": null, "timetable": []}\<close>.
\<close>

theorem ocr_route_result_witness:
  "schema_parse sample_body = Inr (js ''data:image/png;base64,iVBORw0KGgo='', True)
   \<and> vision_stage CallFails = Inl ServiceError
   \<and> ocr_route sample_body CallFails = Ok200 (JArr (map entry_json fallbackEntries))
   \<and> nonempty_array (JArr (map entry_json fallbackEntries))
   \<and> vision_stage (Parsed (JObj [(js ''timetable'', JArr [JNull])])) = Inr (JArr [JNull])
   \<and> ocr_route sample_body (Parsed (JObj [(js ''timetable'', JArr [JNull])])) = Ok200 (JArr [JNull])
   \<and> vision_stage (Parsed (JArr [JNull])) = Inr JFunction
   \<and> ocr_route sample_body (Parsed (JArr [JNull])) = Ok200 JUndefined
   \<and> ocr_route sample_body (Parsed (JObj [])) = Ok200 (JArr [])
   \<and> own_property [(js ''entries'', JNull), (js ''timetable'', JArr [])] (recognized_keys ! 1) = JArr []
   \<and> ocr_route sample_body (Parsed (JObj [(js ''entries'', JNull), (js ''timetable'', JArr [])]))
       = Ok200 (JArr [])"
proof -
  let ?kvs = "[(js ''entries'', JNull), (js ''timetable'', JArr [])]"
  have v: "schema_parse sample_body = Inr (js ''data:image/png;base64,iVBORw0KGgo='', True)"
    by (rule sample_body_valid)
  have f: "vision_stage CallFails = Inl ServiceError" by simp
  have p: "vision_stage (Parsed (JObj [(js ''timetable'', JArr [JNull])])) = Inr (JArr [JNull])"
    by (simp add: rv)
  have a: "vision_stage (Parsed (JArr [JNull])) = Inr JFunction"
    by (simp add: select_entries_def js_or_def)
  have n: "\<forall>k \<in> set recognized_keys. \<not> truthy (own_property [] k)"
    by (simp add: own_property_def)
  have i: "(1::nat) < length recognized_keys" by (simp add: recognized_keys_def)
  have e: "\<forall>j<1. \<not> truthy (own_property ?kvs (recognized_keys ! j))"
    by (simp add: keys_nth own_property_def js_def)
  have t: "own_property ?kvs (recognized_keys ! 1) = JArr []"
    by (simp add: keys_nth own_property_def js_def)
  from ocr_route_result[OF v, of CallFails] f
  have 1: "ocr_route sample_body CallFails = Ok200 (JArr (map entry_json fallbackEntries))
           \<and> nonempty_array (JArr (map entry_json fallbackEntries))" by auto
  from ocr_route_result[OF v, of "Parsed (JObj [(js ''timetable'', JArr [JNull])])"] p
  have "ocr_route sample_body (Parsed (JObj [(js ''timetable'', JArr [JNull])]))
          = Ok200 (res_json (JArr [JNull]))" by auto
  then have 2: "ocr_route sample_body (Parsed (JObj [(js ''timetable'', JArr [JNull])]))
          = Ok200 (JArr [JNull])" by (simp add: sv)
  from ocr_route_result[OF v, of "Parsed (JArr [JNull])"] a
  have "ocr_route sample_body (Parsed (JArr [JNull])) = Ok200 (res_json JFunction)" by auto
  then have 3: "ocr_route sample_body (Parsed (JArr [JNull])) = Ok200 JUndefined" by (simp add: sv)
  from ocr_route_result[OF v, of "Parsed (JObj [])"] n
  have 4: "ocr_route sample_body (Parsed (JObj [])) = Ok200 (JArr [])" by blast
  from ocr_route_result[OF v, of "Parsed (JObj ?kvs)"] i e t
  have 5: "ocr_route sample_body (Parsed (JObj ?kvs)) = Ok200 (JArr [])" by blast
  from v f p a t 1 2 3 4 5 show ?thesis by blast
qed

text \<open>
  Claim C1 as stated fails: the payload is valid, the vision reply is
  \<open>{"entries": []}\<close>, and the result is the empty array.
\<close>

theorem nonempty_result_counterexample:
  "schema_parse sample_body = Inr (js ''data:image/png;base64,iVBORw0KGgo='', True)
   \<and> ocr_route sample_body (Parsed (JObj [(js ''entries'', JArr [])])) = Ok200 (JArr [])
   \<and> \<not> nonempty_array (JArr [])"
  by (simp add: rv nonempty_array_def)




text \<open>
  Claim C3, as amended. If the vision reply is a JSON object in which the first
  recognised key with a truthy value holds an empty array (an empty array is truthy), the
  route returns that empty array as the result; nothing else runs.
\<close>

theorem empty_array_returned:
  assumes "schema_parse body = Inr v"
    and "i < length recognized_keys"
    and "\<forall>j<i. \<not> truthy (own_property kvs (recognized_keys ! j))"
    and "own_property kvs (recognized_keys ! i) = JArr []"
  shows "ocr_route body (Parsed (JObj kvs)) = Ok200 (JArr [])"
proof -
  from assms(4) have "truthy (own_property kvs (recognized_keys ! i))" by simp
  from select_first_truthy[OF assms(2,3) this] assms(4)
  have "vision_stage (Parsed (JObj kvs)) = Inr (JArr [])" by simp
  with route_valid[OF assms(1)] show ?thesis by (simp add: res_json_empty)
qed

text \<open>
  The amended C3 at the reply \<open>{"timetable": [], "classes": [null]}\<close>: \<open>entries\<close> is
  missing, \<open>timetable\<close> holds the empty array, and that is the result.
\<close>

theorem empty_array_returned_witness:
  "schema_parse sample_body = Inr (js ''data:image/png;base64,iVBORw0KGgo='', True)
   \<and> (1::nat) < length recognized_keys
   \<and> \<not> truthy (own_property [(js ''timetable'', JArr []), (js ''classes'', JArr [JNull])]
                  (recognized_keys ! 0))
   \<and> own_property [(js ''timetable'', JArr []), (js ''classes'', JArr [JNull])] (recognized_keys ! 1) = JArr []
   \<and> ocr_route sample_body (Parsed (JObj [(js ''timetable'', JArr []), (js ''classes'', JArr [JNull])]))
       = Ok200 (JArr [])"
proof -
  let ?kvs = "[(js ''timetable'', JArr []), (js ''classes'', JArr [JNull])]"
  have v: "schema_parse sample_body = Inr (js ''data:image/png;base64,iVBORw0KGgo='', True)"
    by (rule sample_body_valid)
  have i: "(1::nat) < length recognized_keys" by (simp add: recognized_keys_def)
  have f: "\<forall>j<1. \<not> truthy (own_property ?kvs (recognized_keys ! j))"
    by (simp add: keys_nth own_property_def js_def)
  have a: "own_property ?kvs (recognized_keys ! 1) = JArr []"
    by (simp add: keys_nth own_property_def js_def)
  from f have f0: "\<not> truthy (own_property ?kvs (recognized_keys ! 0))" by simp
  from empty_array_returned[OF v i f a] v i f0 a show ?thesis by blast
qed

text \<open>
  Claim C3 as stated fails: for the reply \<open>{"schedule": []}\<close> the caller receives the
  empty array, not the outcome of a later stage.
\<close>

theorem empty_array_counterexample:
  "ocr_route sample_body (Parsed (JObj [(js ''schedule'', JArr [])])) = Ok200 (JArr [])
   \<and> ocr_route sample_body (Parsed (JObj [(js ''schedule'', JArr [])]))
       \<noteq> Ok200 (JArr (map entry_json fallbackEntries))"
  by (simp add: rv)

text \<open>
  Claim C4, as amended. When the vision stage yields a value, a value without entries
  included, a valid request is answered with that value, serialised, and nothing runs
  after it: an empty selection is returned as the empty array, and the result is the same
  for every valid request body, so no recognised text is read. (What the route does when
  the vision stage throws is not part of this statement.)
\<close>

theorem selection_returned_without_second_stage:
  assumes "schema_parse body = Inr v" and "vision_stage outcome = Inr sel"
  shows "ocr_route body outcome = Ok200 (res_json sel)
         \<and> (sel = JArr [] \<longrightarrow> ocr_route body outcome = Ok200 (JArr []))
         \<and> (\<forall>body' v'. schema_parse body' = Inr v' \<longrightarrow>
               ocr_route body' outcome = ocr_route body outcome)"
  using route_valid[OF assms(1), of outcome] route_valid[of _ _ outcome] assms(2)
  by (auto simp: res_json_empty)

text \<open>
  The amended C4 at a body that carries recognised text and the reply \<open>{}\<close>: the result
  is the empty array, and the body without the text gets the same.
\<close>

theorem selection_returned_without_second_stage_witness:
  "schema_parse ocrText_body = Inr (js ''data:image/png;base64,iVBORw0KGgo='', True)
   \<and> vision_stage (Parsed (JObj [])) = Inr (JArr [])
   \<and> ocr_route ocrText_body (Parsed (JObj [])) = Ok200 (JArr [])
   \<and> schema_parse sample_body = Inr (js ''data:image/png;base64,iVBORw0KGgo='', True)
   \<and> ocr_route sample_body (Parsed (JObj [])) = ocr_route ocrText_body (Parsed (JObj []))"
proof -
  have v: "schema_parse ocrText_body = Inr (js ''data:image/png;base64,iVBORw0KGgo='', True)"
    by (rule ocrText_body_valid)
  have v': "schema_parse sample_body = Inr (js ''data:image/png;base64,iVBORw0KGgo='', True)"
    by (rule sample_body_valid)
  have p: "vision_stage (Parsed (JObj [])) = Inr (JArr [])" by (simp add: rv)
  from selection_returned_without_second_stage[OF v p] v'
  have 1: "ocr_route ocrText_body (Parsed (JObj [])) = Ok200 (JArr [])"
    and 2: "ocr_route sample_body (Parsed (JObj [])) = ocr_route ocrText_body (Parsed (JObj []))"
    by blast+
  from v v' p 1 2 show ?thesis by blast
qed

text \<open>
  Claim C4 as stated fails: the request carries the recognised text
  \<open>Monday 09:00-10:30 Room 101 Calculus\<close>, from which the heuristic parser builds one
  entry, and the vision reply \<open>{"entries": []}\<close> yields no entries; the route returns the
  empty array, not that entry.
\<close>

theorem heuristic_stage_counterexample:
  "schema_parse ocrText_body = Inr (js ''data:image/png;base64,iVBORw0KGgo='', True)
   \<and> parseOCRToTimetable (js ''Monday 09:00-10:30 Room 101 Calculus'') =
       [\<lparr>title = js ''Calculus'', day = js ''Monday'', startTime = js ''09:00'',
          endTime = js ''10:30'', location = js ''Room 101''\<rparr>]
   \<and> ocr_route ocrText_body (Parsed (JObj [(js ''entries'', JArr [])])) = Ok200 (JArr [])
   \<and> ocr_route ocrText_body (Parsed (JObj [(js ''entries'', JArr [])]))
        \<noteq> Ok200 (JArr (map entry_json (parseOCRToTimetable (js ''Monday 09:00-10:30 Room 101 Calculus''))))"
proof -
  have p: "parseOCRToTimetable (js ''Monday 09:00-10:30 Room 101 Calculus'') =
       [\<lparr>title = js ''Calculus'', day = js ''Monday'', startTime = js ''09:00'',
          endTime = js ''10:30'', location = js ''Room 101''\<rparr>]"
    by (simp add: ev)
  have e: "ocr_route ocrText_body (Parsed (JObj [(js ''entries'', JArr [])])) = Ok200 (JArr [])"
    using route_valid[OF ocrText_body_valid, of "Parsed (JObj [(js ''entries'', JArr [])])"]
    by (simp add: select_entries_def js_or_def own_property_def res_json_empty)
  have n: "ocr_route ocrText_body (Parsed (JObj [(js ''entries'', JArr [])]))
        \<noteq> Ok200 (JArr (map entry_json (parseOCRToTimetable (js ''Monday 09:00-10:30 Room 101 Calculus''))))"
    unfolding e p by simp
  from ocrText_body_valid p e n show ?thesis by blast
qed

text \<open>
  Claim C5. When the vision stage fails entirely (the call is rejected, the reply has no
  content, or the content is not parseable), a valid request is answered with the fixed
  set of six entries, the first being Monday 09:00 to 10:30, Mathematics, Room 101.
\<close>

theorem vision_failure_fallback:
  assumes "schema_parse body = Inr v" and "outcome \<in> {CallFails, NoContent, Unparseable}"
  shows "ocr_route body outcome = Ok200 (JArr (map entry_json fallbackEntries))
         \<and> length fallbackEntries = 6
         \<and> hd (map entry_json fallbackEntries) =
             JObj [(js ''day'', JStr (js ''Monday'')), (js ''startTime'', JStr (js ''09:00'')),
                   (js ''endTime'', JStr (js ''10:30'')), (js ''title'', JStr (js ''Mathematics'')),
                   (js ''location'', JStr (js ''Room 101''))]"
proof (intro conjI)
  from assms(2) obtain err where "vision_stage outcome = Inl err" by auto
  with route_valid[OF assms(1), of outcome]
  show "ocr_route body outcome = Ok200 (JArr (map entry_json fallbackEntries))" by simp
  show "length fallbackEntries = 6" by (simp add: fallbackEntries_def)
  show "hd (map entry_json fallbackEntries) =
             JObj [(js ''day'', JStr (js ''Monday'')), (js ''startTime'', JStr (js ''09:00'')),
                   (js ''endTime'', JStr (js ''10:30'')), (js ''title'', JStr (js ''Mathematics'')),
                   (js ''location'', JStr (js ''Room 101''))]"
    by (simp add: fallbackEntries_def entry_json_def mk_entry_def)
qed

text \<open>
  C5 at the body the timetable view sends and a reply without content.
\<close>

theorem vision_failure_fallback_witness:
  "schema_parse sample_body = Inr (js ''data:image/png;base64,iVBORw0KGgo='', True)
   \<and> NoContent \<in> {CallFails, NoContent, Unparseable}
   \<and> ocr_route sample_body NoContent = Ok200 (JArr (map entry_json fallbackEntries))
   \<and> length fallbackEntries = 6"
proof -
  have v: "schema_parse sample_body = Inr (js ''data:image/png;base64,iVBORw0KGgo='', True)"
    by (rule sample_body_valid)
  have o: "NoContent \<in> {CallFails, NoContent, Unparseable}" by simp
  from vision_failure_fallback[OF v o] v o show ?thesis by blast
qed

text \<open>
  Claim C6. The single line \<open>Monday 09:00-10:30 Room 101 Calculus\<close> gives exactly one
  entry, Monday 09:00 to 10:30, title \<open>Calculus\<close>, location \<open>Room 101\<close>; removing the
  time, day and location matches and trimming leaves \<open>Calculus\<close>.
\<close>

theorem parse_calculus_line:
  "parseOCRToTimetable (js ''Monday 09:00-10:30 Room 101 Calculus'') =
     [\<lparr>title = js ''Calculus'', day = js ''Monday'', startTime = js ''09:00'',
        endTime = js ''10:30'', location = js ''Room 101''\<rparr>]
   \<and> trim (replace_empty roomPattern (replace_empty dayPattern (replace_empty timePattern
        (js ''Monday 09:00-10:30 Room 101 Calculus'')))) = js ''Calculus''"
  by (simp add: ev)

text \<open>
  Claim C7. A line in which the time pattern finds no match adds no entry, whatever was
  collected before, so such lines can be left out of the input without changing the
  result; in particular the text \<open>Room 101\<close> gives no entries.
\<close>

theorem no_time_no_entry:
  "(js_match timePattern line = None \<longrightarrow> process_line entries line = entries)
   \<and> foldl process_line entries (filter (\<lambda>l. js_match timePattern l \<noteq> None) ls)
       = foldl process_line entries ls
   \<and> parseOCRToTimetable (js ''Room 101'') = []"
proof (intro conjI)
  show "js_match timePattern line = None \<longrightarrow> process_line entries line = entries"
    by (simp add: process_line_def)
  show "foldl process_line entries (filter (\<lambda>l. js_match timePattern l \<noteq> None) ls)
       = foldl process_line entries ls"
    by (induction ls arbitrary: entries) (simp_all add: process_line_no_time)
  show "parseOCRToTimetable (js ''Room 101'') = []" by (simp add: ev)
qed

text \<open>
  C7 at the line \<open>Room 101\<close>, with one entry already collected.
\<close>

theorem no_time_no_entry_witness:
  "js_match timePattern (js ''Room 101'') = None
   \<and> process_line [mk_entry ''Monday'' ''09:00'' ''10:30'' ''Mathematics'' ''Room 101''] (js ''Room 101'')
       = [mk_entry ''Monday'' ''09:00'' ''10:30'' ''Mathematics'' ''Room 101'']"
proof -
  have h: "js_match timePattern (js ''Room 101'') = None" by (simp add: ev)
  from no_time_no_entry[of "js ''Room 101''"] h show ?thesis by blast
qed

text \<open>
  Claim C8. A line that the three patterns consume whole gets the title \<open>Class N\<close>,
  \<open>N\<close> being one more than the number of entries collected so far; two such lines in a
  row, starting from nothing, get \<open>Class 1\<close> and \<open>Class 2\<close> in that order.
\<close>

theorem class_title_synthesis:
  "(fully_consumed line \<longrightarrow>
      (\<exists>e. process_line entries line = entries @ [e]
          \<and> title e = js ''Class '' @ number_toString (length entries + 1)))
   \<and> (fully_consumed l1 \<longrightarrow> fully_consumed l2 \<longrightarrow>
        map title (foldl process_line [] [l1, l2]) = [js ''Class 1'', js ''Class 2''])"
proof (intro conjI impI)
  assume "fully_consumed line"
  then show "\<exists>e. process_line entries line = entries @ [e]
          \<and> title e = js ''Class '' @ number_toString (length entries + 1)"
    by (rule fully_consumed_step)
next
  assume 1: "fully_consumed l1" and 2: "fully_consumed l2"
  from fully_consumed_step[OF 1, of "[]"] obtain e1 where
    e1: "process_line [] l1 = [e1]" "title e1 = js ''Class '' @ number_toString (Suc 0)" by auto
  from fully_consumed_step[OF 2, of "[e1]"] obtain e2 where
    e2: "process_line [e1] l2 = [e1, e2]" "title e2 = js ''Class '' @ number_toString (Suc (Suc 0))" by auto
  have "number_toString (Suc 0) = js ''1''" "number_toString (Suc (Suc 0)) = js ''2''"
    by (simp_all add: number_toString.simps js_def)
  with e1 e2 show "map title (foldl process_line [] [l1, l2]) = [js ''Class 1'', js ''Class 2'']"
    by (simp add: js_def)
qed

text \<open>
  C8 at the text made of the line \<open>Monday 09:00-10:30 Room 101\<close> twice.
\<close>

theorem class_title_synthesis_witness:
  "fully_consumed (js ''Monday 09:00-10:30 Room 101'')
   \<and> map title (parseOCRToTimetable
        (js ''Monday 09:00-10:30 Room 101'' @ [10] @ js ''Monday 09:00-10:30 Room 101''))
       = [js ''Class 1'', js ''Class 2'']"
proof -
  have c: "fully_consumed (js ''Monday 09:00-10:30 Room 101'')"
    by (simp add: fully_consumed_def ev)
  have p: "parseOCRToTimetable
        (js ''Monday 09:00-10:30 Room 101'' @ [10] @ js ''Monday 09:00-10:30 Room 101'')
      = foldl process_line [] [js ''Monday 09:00-10:30 Room 101'', js ''Monday 09:00-10:30 Room 101'']"
    by (simp add: parseOCRToTimetable_def trim_def is_space_def js_def)
  from class_title_synthesis[of _ _ "js ''Monday 09:00-10:30 Room 101''" "js ''Monday 09:00-10:30 Room 101''"] c
  have "map title (foldl process_line [] [js ''Monday 09:00-10:30 Room 101'', js ''Monday 09:00-10:30 Room 101''])
      = [js ''Class 1'', js ''Class 2'']" by blast
  with c p show ?thesis by simp
qed

text \<open>
  Claim C9, as amended. For a reply that is a JSON object the adapter takes the first
  of \<open>entries\<close>, \<open>timetable\<close>, \<open>schedule\<close>, \<open>classes\<close> whose value is truthy, array
  or not, and the empty array when none of them is truthy. A reply that is not valid JSON
  makes the stage throw, and the route then returns the fallback set.
\<close>

theorem first_truthy_key:
  "(i < length recognized_keys \<longrightarrow>
      (\<forall>j<i. \<not> truthy (own_property kvs (recognized_keys ! j))) \<longrightarrow>
      truthy (own_property kvs (recognized_keys ! i)) \<longrightarrow>
      vision_stage (Parsed (JObj kvs)) = Inr (own_property kvs (recognized_keys ! i)))
   \<and> ((\<forall>k \<in> set recognized_keys. \<not> truthy (own_property kvs k)) \<longrightarrow>
        vision_stage (Parsed (JObj kvs)) = Inr (JArr []))
   \<and> (schema_parse body = Inr v \<longrightarrow>
        vision_stage Unparseable = Inl SyntaxError
        \<and> ocr_route body Unparseable = Ok200 (JArr (map entry_json fallbackEntries)))"
  using select_first_truthy[of i kvs] select_none_truthy[of kvs] route_valid[of body v Unparseable]
  by simp

text \<open>
  The amended C9 at the reply \<open>{"entries": null, "schedule": [null], "classes": []}\<close>,
  at the reply \<open>{"lessons": [null]}\<close> and at an unparseable reply.
\<close>

theorem first_truthy_key_witness:
  "(2::nat) < length recognized_keys
   \<and> \<not> truthy (own_property [(js ''entries'', JNull), (js ''schedule'', JArr [JNull]),
                             (js ''classes'', JArr [])] (recognized_keys ! 0))
   \<and> \<not> truthy (own_property [(js ''entries'', JNull), (js ''schedule'', JArr [JNull]),
                             (js ''classes'', JArr [])] (recognized_keys ! 1))
   \<and> truthy (own_property [(js ''entries'', JNull), (js ''schedule'', JArr [JNull]),
                           (js ''classes'', JArr [])] (recognized_keys ! 2))
   \<and> vision_stage (Parsed (JObj [(js ''entries'', JNull), (js ''schedule'', JArr [JNull]),
                                  (js ''classes'', JArr [])])) = Inr (JArr [JNull])
   \<and> list_all (\<lambda>k. own_property [(js ''lessons'', JArr [JNull])] k = JUndefined) recognized_keys
   \<and> vision_stage (Parsed (JObj [(js ''lessons'', JArr [JNull])])) = Inr (JArr [])
   \<and> schema_parse sample_body = Inr (js ''data:image/png;base64,iVBORw0KGgo='', True)
   \<and> ocr_route sample_body Unparseable = Ok200 (JArr (map entry_json fallbackEntries))"
proof -
  let ?kvs = "[(js ''entries'', JNull), (js ''schedule'', JArr [JNull]), (js ''classes'', JArr [])]"
  have i: "(2::nat) < length recognized_keys" by (simp add: recognized_keys_def)
  have f: "\<forall>j<2. \<not> truthy (own_property ?kvs (recognized_keys ! j))"
    by (simp add: keys_nth own_property_def js_def less_Suc_eq numeral_2_eq_2)
  have t: "own_property ?kvs (recognized_keys ! 2) = JArr [JNull]"
    by (simp add: keys_nth own_property_def js_def)
  then have t': "truthy (own_property ?kvs (recognized_keys ! 2))" by simp
  have n: "\<forall>k \<in> set recognized_keys. \<not> truthy (own_property [(js ''lessons'', JArr [JNull])] k)"
    by (simp add: recognized_keys_def own_property_def js_def)
  have v: "schema_parse sample_body = Inr (js ''data:image/png;base64,iVBORw0KGgo='', True)"
    by (rule sample_body_valid)
  from first_truthy_key[of 2 ?kvs sample_body] i f t' t
  have 1: "vision_stage (Parsed (JObj ?kvs)) = Inr (JArr [JNull])" by simp
  from first_truthy_key[of 0 "[(js ''lessons'', JArr [JNull])]" sample_body] n
  have 2: "vision_stage (Parsed (JObj [(js ''lessons'', JArr [JNull])])) = Inr (JArr [])" by blast
  from first_truthy_key[of 0 "[]" sample_body] v
  have 3: "ocr_route sample_body Unparseable = Ok200 (JArr (map entry_json fallbackEntries))" by blast
  from f have f0: "\<not> truthy (own_property ?kvs (recognized_keys ! 0))"
    and f1: "\<not> truthy (own_property ?kvs (recognized_keys ! 1))" by simp_all
  have u: "list_all (\<lambda>k. own_property [(js ''lessons'', JArr [JNull])] k = JUndefined) recognized_keys"
    by (simp add: recognized_keys_def own_property_def js_def)
  from i f0 f1 t' u v 1 2 3 show ?thesis by blast
qed

text \<open>
  Claim C9 as stated fails twice: for \<open>{"entries": "none", "timetable": [null]}\<close> the
  adapter takes the string under \<open>entries\<close> although \<open>timetable\<close> holds an array, and an
  unparseable reply gives the fallback set, not the empty array.
\<close>

theorem first_array_key_counterexample:
  "vision_stage (Parsed (JObj [(js ''entries'', JStr (js ''none'')), (js ''timetable'', JArr [JNull])]))
     = Inr (JStr (js ''none''))
   \<and> \<not> is_array (JStr (js ''none''))
   \<and> is_array (own_property [(js ''entries'', JStr (js ''none'')), (js ''timetable'', JArr [JNull])]
                 (js ''timetable''))
   \<and> ocr_route sample_body Unparseable = Ok200 (JArr (map entry_json fallbackEntries))
   \<and> ocr_route sample_body Unparseable \<noteq> Ok200 (JArr [])"
  by (simp add: rv is_array_def)

text \<open>
  Claim C10. A line that contains \<open>header\<close>, \<open>table\<close> or \<open>schedule\<close> as a substring,
  in any mix of upper and lower case, adds no entry, whatever else the line holds.
\<close>

theorem header_line_skipped:
  assumes "contains_ci (js ''header'') line \<or> contains_ci (js ''table'') line
           \<or> contains_ci (js ''schedule'') line"
  shows "process_line entries line = entries"
  using header_test[OF assms] by (simp add: process_line_def)

text \<open>
  C10 at the line \<open>Schedule Monday 09:00-10:30 Calculus\<close>, which has a time range and a
  weekday and still gives no entries.
\<close>

theorem header_line_skipped_witness:
  "contains_ci (js ''schedule'') (js ''Schedule Monday 09:00-10:30 Calculus'')
   \<and> js_match timePattern (js ''Schedule Monday 09:00-10:30 Calculus'') \<noteq> None
   \<and> js_match dayPattern (js ''Schedule Monday 09:00-10:30 Calculus'') \<noteq> None
   \<and> parseOCRToTimetable (js ''Schedule Monday 09:00-10:30 Calculus'') = []"
proof -
  have c: "contains_ci (js ''schedule'') (js ''Schedule Monday 09:00-10:30 Calculus'')"
    by (simp add: js_def ci_equal_def ascii_lower_def is_upper_def)
  have t: "js_match timePattern (js ''Schedule Monday 09:00-10:30 Calculus'') \<noteq> None"
    by (simp add: ev)
  have d: "js_match dayPattern (js ''Schedule Monday 09:00-10:30 Calculus'') \<noteq> None"
    by (simp add: ev)
  have p: "parseOCRToTimetable (js ''Schedule Monday 09:00-10:30 Calculus'')
      = process_line [] (js ''Schedule Monday 09:00-10:30 Calculus'')"
    by (simp add: parseOCRToTimetable_def trim_def is_space_def js_def)
  from header_line_skipped[of "js ''Schedule Monday 09:00-10:30 Calculus''" "[]"] c
  have "process_line [] (js ''Schedule Monday 09:00-10:30 Calculus'') = []" by blast
  with c t d p show ?thesis by simp
qed

end
